theory Spec2Isabelle
  imports Complex_Main "HOL-Library.Multiset" "HOL-Library.Sublist"
begin

section \<open>NumPy values\<close>

text \<open>
  The voxel carving engine of \<^verbatim>\<open>src/voxeling.py\<close> works on NumPy arrays.  A
  two-dimensional float array is a list of rows.  A finite float64 value is a rational and
  NumPy's int64 an unbounded integer.  In the projector the arithmetic on finite values is
  taken as exact; in the scaler, where a statement depends on it, the rounding of every
  float operation is explicit.  Modelled throughout is where a value stops being finite: a
  true division by zero gives an infinity or NaN (NumPy warns and goes on), and converting
  such a value to an integer with \<^verbatim>\<open>astype(int)\<close> yields whatever the hardware conversion
  returns, so that result is a parameter \<open>c\<close> of the model.
\<close>

datatype py_error = ValueError | IndexError | TypeError | CvError

datatype npfloat = Finite rat | PosInf | NegInf | NaN

type_synonym matrix = "rat list list"

text \<open>\<^verbatim>\<open>a.shape[1]\<close> of an array given by its rows.\<close>

definition ncols :: "'a list list \<Rightarrow> nat" where
  "ncols a = (case a of [] \<Rightarrow> 0 | r # _ \<Rightarrow> length r)"

definition is_matrix :: "nat \<Rightarrow> nat \<Rightarrow> 'a list list \<Rightarrow> bool" where
  "is_matrix r k a = (length a = r \<and> list_all (\<lambda>row. length row = k) a)"

text \<open>True division of two finite floats.\<close>

definition np_div :: "rat \<Rightarrow> rat \<Rightarrow> npfloat" where
  "np_div x w =
     (if w \<noteq> 0 then Finite (x / w)
      else if 0 < x then PosInf
      else if x < 0 then NegInf
      else NaN)"

text \<open>\<^verbatim>\<open>np.round\<close> rounds to the nearest integer, a tie to the even neighbour.\<close>

definition round_half_even :: "rat \<Rightarrow> int" where
  "round_half_even q =
     (let f = \<lfloor>q\<rfloor>; d = q - of_int f
      in if d < 1 / 2 then f
         else if 1 / 2 < d then f + 1
         else if even f then f else f + 1)"

definition np_round :: "npfloat \<Rightarrow> npfloat" where
  "np_round v = (case v of Finite q \<Rightarrow> Finite (of_int (round_half_even q)) | _ \<Rightarrow> v)"

text \<open>\<^verbatim>\<open>astype(int)\<close>: truncation of a finite value, the platform's answer \<open>c\<close> otherwise.\<close>

definition astype_int :: "(npfloat \<Rightarrow> int) \<Rightarrow> npfloat \<Rightarrow> int" where
  "astype_int c v =
     (case v of
        Finite q \<Rightarrow> (if 0 \<le> q then \<lfloor>q\<rfloor> else \<lceil>q\<rceil>)
      | _ \<Rightarrow> c v)"

text \<open>\<^verbatim>\<open>a @ b\<close> raises when the inner dimensions differ.\<close>

definition matmul :: "matrix \<Rightarrow> matrix \<Rightarrow> py_error + matrix" where
  "matmul a b =
     (if \<not> list_all (\<lambda>r. length r = length b) a then Inl ValueError
      else Inr (map (\<lambda>r. map (\<lambda>j. sum_list (map (\<lambda>k. r ! k * b ! k ! j) [0..<length b]))
                              [0..<ncols b]) a))"

section \<open>Projector\<close>

text \<open>
  \<^verbatim>\<open>get_pixel_points(ppm, points)\<close>: the product, the in-place division of every row by the
  last row, rounding, and the conversion to integers.  All rows of the product are kept.
\<close>

definition get_pixel_points ::
  "(npfloat \<Rightarrow> int) \<Rightarrow> matrix \<Rightarrow> matrix \<Rightarrow> py_error + int list list" where
  "get_pixel_points c ppm points =
     (case matmul ppm points of
        Inl e \<Rightarrow> Inl e
      | Inr points_2d \<Rightarrow>
          if points_2d = [] then Inl IndexError
          else
            let divided = map (\<lambda>row. map2 np_div row (last points_2d)) points_2d
            in Inr (map (map (\<lambda>v. astype_int c (np_round v))) divided))"

section \<open>Occupancy voter\<close>

text \<open>
  A silhouette mask is a two-dimensional array of pixel values (the Otsu masks hold 0 and
  255, a boolean mask 0 and 1) with its shape; \<open>item img y x\<close> is the pixel in row \<open>y\<close>,
  column \<open>x\<close>.
\<close>

record mask =
  shape0 :: nat
  shape1 :: nat
  item :: "nat \<Rightarrow> nat \<Rightarrow> int"

text \<open>An index into an axis of length \<open>n\<close>: negative indices count from the end.\<close>

definition norm_index :: "nat \<Rightarrow> int \<Rightarrow> py_error + nat" where
  "norm_index n i =
     (if 0 \<le> i \<and> i < int n then Inr (nat i)
      else if - int n \<le> i \<and> i < 0 then Inr (nat (i + int n))
      else Inl IndexError)"

text \<open>\<^verbatim>\<open>img[ys, xs]\<close> with two index arrays.\<close>

fun fancy_index :: "mask \<Rightarrow> int list \<Rightarrow> int list \<Rightarrow> py_error + int list" where
  "fancy_index img [] [] = Inr []"
| "fancy_index img (y # ys) (x # xs) =
     (case norm_index (shape0 img) y of
        Inl e \<Rightarrow> Inl e
      | Inr r \<Rightarrow>
          (case norm_index (shape1 img) x of
             Inl e \<Rightarrow> Inl e
           | Inr k \<Rightarrow>
               (case fancy_index img ys xs of
                  Inl e \<Rightarrow> Inl e
                | Inr vs \<Rightarrow> Inr (item img r k # vs))))"
| "fancy_index img _ _ = Inl IndexError"

text \<open>\<^verbatim>\<open>np.where(bs)[0]\<close>: the positions that hold true, ascending.\<close>

definition np_where :: "bool list \<Rightarrow> nat list" where
  "np_where bs = filter (\<lambda>i. bs ! i) [0..<length bs]"

text \<open>\<^verbatim>\<open>a[idx] = vals\<close>: the assignments in order.\<close>

definition assign_at :: "'a list \<Rightarrow> nat list \<Rightarrow> 'a list \<Rightarrow> 'a list" where
  "assign_at a idx vals = fold (\<lambda>(i, v) acc. acc[i := v]) (zip idx vals) a"

text \<open>
  One pass of the loop of \<^verbatim>\<open>get_voxel_points_projection_is_in_images_mask\<close> after the
  projection: the votes of one mask.  The votes are the floats 0.0 and 1.0, written as
  integers.  Rows 0 and 1 of \<^verbatim>\<open>points_2d\<close> are read, and row 1 once more after the last row
  has been dropped, so fewer than three rows raise.
\<close>

definition points_in_mask_of :: "mask \<Rightarrow> int list list \<Rightarrow> py_error + int list" where
  "points_in_mask_of img points_2d =
     (if length points_2d < 3 then Inl IndexError
      else
        let image_width = int (shape1 img);
            image_height = int (shape0 img);
            x_in_image = map (\<lambda>x. 0 \<le> x \<and> x < image_width) (points_2d ! 0);
            y_in_image = map (\<lambda>y. 0 \<le> y \<and> y < image_height) (points_2d ! 1);
            points_in_image = map2 (\<and>) x_in_image y_in_image;
            indices_in_image = np_where points_in_image;
            points_in_mask = replicate (ncols points_2d) 0;
            points_in_image_coords =
              map (\<lambda>row. map ((!) row) indices_in_image) (butlast points_2d)
        in case fancy_index img (points_in_image_coords ! 1) (points_in_image_coords ! 0) of
             Inl e \<Rightarrow> Inl e
           | Inr res \<Rightarrow>
               Inr (assign_at points_in_mask indices_in_image
                      (map (\<lambda>v. if v \<noteq> 0 then 1 else 0) res)))"

fun voting_loop ::
  "(npfloat \<Rightarrow> int) \<Rightarrow> (matrix \<times> mask) list \<Rightarrow> matrix \<Rightarrow> py_error + int list list" where
  "voting_loop c [] voxel_points = Inr []"
| "voting_loop c ((ppm, img) # rest) voxel_points =
     (case get_pixel_points c ppm voxel_points of
        Inl e \<Rightarrow> Inl e
      | Inr points_2d \<Rightarrow>
          (case points_in_mask_of img points_2d of
             Inl e \<Rightarrow> Inl e
           | Inr points_in_mask \<Rightarrow>
               (case voting_loop c rest voxel_points of
                  Inl e \<Rightarrow> Inl e
                | Inr voxel_points_in_mask \<Rightarrow> Inr (points_in_mask # voxel_points_in_mask))))"

text \<open>\<^verbatim>\<open>np.vstack\<close> raises on an empty list and on rows of different lengths.\<close>

definition np_vstack :: "'a list list \<Rightarrow> py_error + 'a list list" where
  "np_vstack rows =
     (if rows = [] then Inl ValueError
      else if \<not> list_all (\<lambda>r. length r = length (hd rows)) rows then Inl ValueError
      else Inr rows)"

definition get_voxel_points_projection_is_in_images_mask ::
  "(npfloat \<Rightarrow> int) \<Rightarrow> mask list \<Rightarrow> matrix list \<Rightarrow> matrix \<Rightarrow> py_error + int list list" where
  "get_voxel_points_projection_is_in_images_mask c images_masks ppms voxel_points =
     (case voting_loop c (zip ppms images_masks) voxel_points of
        Inl e \<Rightarrow> Inl e
      | Inr voxel_points_in_mask \<Rightarrow> np_vstack voxel_points_in_mask)"

section \<open>Occupancy aggregator\<close>

text \<open>
  \<^verbatim>\<open>get_voxel_points_occupancy\<close> is \<^verbatim>\<open>np.sum(voxel_points_in_masks, axis=0)\<close>: one sum per
  column.  The entries are small whole floats, so the float sum is the integer sum.
\<close>

definition get_voxel_points_occupancy :: "int list list \<Rightarrow> int list" where
  "get_voxel_points_occupancy voxel_points_in_masks =
     map (\<lambda>j. sum_list (map (\<lambda>row. row ! j) voxel_points_in_masks))
       [0..<ncols voxel_points_in_masks]"

text \<open>
  \<^verbatim>\<open>a[:, keep]\<close> with a boolean array \<open>keep\<close>: the columns where it is true, in order; NumPy
  raises when \<open>keep\<close> is not as long as a row.
\<close>

definition bool_index_columns :: "'a list list \<Rightarrow> bool list \<Rightarrow> py_error + 'a list list" where
  "bool_index_columns a keep =
     (if length keep \<noteq> ncols a then Inl IndexError
      else Inr (map (\<lambda>row. map fst (filter snd (zip row keep))) a))"

definition get_voxel_points_by_minimum_occupancy ::
  "'a list list \<Rightarrow> int list \<Rightarrow> int \<Rightarrow> py_error + 'a list list" where
  "get_voxel_points_by_minimum_occupancy voxel_points occupancy min_occupancy =
     bool_index_columns voxel_points (map (\<lambda>n. min_occupancy \<le> n) occupancy)"

section \<open>Scaler and grid builder\<close>

definition np_arange :: "int \<Rightarrow> int list" where
  "np_arange n = map int [0..<nat n]"

text \<open>
  \<^verbatim>\<open>np.meshgrid(a, b, c)\<close> with the default indexing has shape
  \<open>(len b, len a, len c)\<close>; flattened in row-major order the three arrays are:
\<close>

definition meshgrid_flat :: "'a list \<Rightarrow> 'a list \<Rightarrow> 'a list \<Rightarrow> 'a list \<times> 'a list \<times> 'a list" where
  "meshgrid_flat a b c =
     (concat (map (\<lambda>y. concat (map (\<lambda>x. map (\<lambda>z. x) c) a)) b),
      concat (map (\<lambda>y. concat (map (\<lambda>x. map (\<lambda>z. y) c) a)) b),
      concat (map (\<lambda>y. concat (map (\<lambda>x. map (\<lambda>z. z) c) a)) b))"

definition np_add :: "rat \<Rightarrow> npfloat \<Rightarrow> npfloat" where
  "np_add a v = (case v of Finite q \<Rightarrow> Finite (a + q) | _ \<Rightarrow> v)"

text \<open>
  The scaler is where a claim speaks of the exact value of a computed float, so here the
  rounding of float64 arithmetic is explicit: every float operation is the exact operation
  followed by a rounding \<open>fl\<close> of the result to a float, and \<open>fl\<close> is a parameter of the
  scaler and of the grid builder.  The exact arithmetic of the other sections is \<open>fl = id\<close>.
\<close>

definition rounded :: "(rat \<Rightarrow> rat) \<Rightarrow> npfloat \<Rightarrow> npfloat" where
  "rounded fl v = (case v of Finite q \<Rightarrow> Finite (fl q) | _ \<Rightarrow> v)"

text \<open>
  \<^verbatim>\<open>_min_max_scale\<close> is
  \<^verbatim>\<open>min_value + (arr - arr.min()) * (max_value - min_value) / (arr.max() - arr.min())\<close>.
  \<^verbatim>\<open>arr.min()\<close> raises on an empty array.  The subtractions of integers are exact; the
  difference of the bounds, the product, the quotient and the sum are float operations.  The
  division does not raise when \<^verbatim>\<open>arr.max() == arr.min()\<close>.
\<close>

definition min_max_scale ::
  "(rat \<Rightarrow> rat) \<Rightarrow> int list \<Rightarrow> rat \<Rightarrow> rat \<Rightarrow> py_error + npfloat list" where
  "min_max_scale fl arr min_value max_value =
     (if arr = [] then Inl ValueError
      else
        let lo = Min (set arr); hi = Max (set arr)
        in Inr (map (\<lambda>v. rounded fl (np_add min_value
                   (rounded fl (np_div (fl (of_int (v - lo) * fl (max_value - min_value)))
                                  (of_int (hi - lo))))))
                  arr))"

definition get_voxel_grid_points ::
  "(rat \<Rightarrow> rat) \<Rightarrow> int \<Rightarrow> rat \<Rightarrow> rat \<Rightarrow> rat \<Rightarrow> rat \<Rightarrow> rat \<Rightarrow> rat \<Rightarrow> py_error + npfloat list list" where
  "get_voxel_grid_points fl mesh_grid_size x_min x_max y_min y_max z_min z_max =
     (case meshgrid_flat (np_arange mesh_grid_size) (np_arange mesh_grid_size)
             (np_arange mesh_grid_size) of
        (x, y, z) \<Rightarrow>
          (case min_max_scale fl x x_min x_max of
             Inl e \<Rightarrow> Inl e
           | Inr xs \<Rightarrow>
               (case min_max_scale fl y y_min y_max of
                  Inl e \<Rightarrow> Inl e
                | Inr ys \<Rightarrow>
                    (case min_max_scale fl z z_min z_max of
                       Inl e \<Rightarrow> Inl e
                     | Inr zs \<Rightarrow> Inr [xs, ys, zs, replicate (length xs) (Finite 1)]))))"

text \<open>
  float64 rounding, for values within the exponent range: round to the nearest number with
  a significand of 53 bits, a tie to the even significand.  \<open>exponent x\<close> is the \<open>e\<close> with
  \<open>2 ^ e \<le> |x| < 2 ^ (e + 1)\<close>.
\<close>

function bit_length :: "int \<Rightarrow> nat" where
  "bit_length n = (if n \<le> 0 then 0 else Suc (bit_length (n div 2)))"
  by pat_completeness auto
termination
  by (relation "measure nat") auto

definition pow2 :: "int \<Rightarrow> rat" where
  "pow2 e = (if 0 \<le> e then 2 ^ nat e else 1 / 2 ^ nat (- e))"

definition exponent :: "rat \<Rightarrow> int" where
  "exponent x =
     (case quotient_of \<bar>x\<bar> of
        (p, q) \<Rightarrow>
          let e = int (bit_length p) - int (bit_length q)
          in if pow2 e \<le> \<bar>x\<bar> then e else e - 1)"

definition fl53 :: "rat \<Rightarrow> rat" where
  "fl53 x =
     (if x = 0 then 0
      else let ulp = pow2 (exponent x - 52) in of_int (round_half_even (x / ulp)) * ulp)"

section \<open>Cropping and padding (\<^verbatim>\<open>src/processing.py\<close>)\<close>

text \<open>An image is an array of shape \<open>(rows, cols, 3)\<close>; \<open>pixel im y x ch\<close> is one channel.\<close>

record image =
  rows :: nat
  cols :: nat
  pixel :: "nat \<Rightarrow> nat \<Rightarrow> nat \<Rightarrow> int"

text \<open>
  A Python slice \<^verbatim>\<open>[start:stop]\<close> of an axis of length \<open>n\<close>: a negative bound counts from
  the end, both bounds are clipped to the axis, and the slice is empty when the stop is not
  after the start.  The result is the first position and the number of positions.
\<close>

definition slice_bound :: "nat \<Rightarrow> int \<Rightarrow> nat" where
  "slice_bound n i = (if i < 0 then nat (max (i + int n) 0) else nat (min i (int n)))"

definition py_slice :: "nat \<Rightarrow> int \<Rightarrow> int \<Rightarrow> nat \<times> nat" where
  "py_slice n start stop = (slice_bound n start, slice_bound n stop - slice_bound n start)"

definition crop :: "image \<Rightarrow> nat \<times> nat \<Rightarrow> nat \<times> nat \<Rightarrow> image" where
  "crop img rs cs =
     \<lparr>rows = snd rs, cols = snd cs, pixel = (\<lambda>y x. pixel img (fst rs + y) (fst cs + x))\<rparr>"

definition get_cropped_images :: "image list \<Rightarrow> int \<Rightarrow> int \<Rightarrow> int \<Rightarrow> int \<Rightarrow> image list" where
  "get_cropped_images images top' bottom' left' right' =
     (if length images = 0 then images
      else
        let image_height = int (rows (images ! 0)); image_width = int (cols (images ! 0))
        in map (\<lambda>img. crop img (py_slice (rows img) top' (image_height - bottom'))
                                (py_slice (cols img) left' (image_width - right')))
             images)"

text \<open>
  Modelled from the OpenCV documentation: \<^verbatim>\<open>cv.copyMakeBorder\<close> is library code.  It
  asserts that no border is negative; the result has \<open>top + bottom\<close> more rows and
  \<open>left + right\<close> more columns, the source in the middle and the constant (here 0) around.
\<close>

definition copyMakeBorder :: "image \<Rightarrow> int \<Rightarrow> int \<Rightarrow> int \<Rightarrow> int \<Rightarrow> py_error + image" where
  "copyMakeBorder img top' bottom' left' right' =
     (if top' < 0 \<or> bottom' < 0 \<or> left' < 0 \<or> right' < 0 then Inl CvError
      else Inr \<lparr>rows = rows img + nat top' + nat bottom',
                cols = cols img + nat left' + nat right',
                pixel = (\<lambda>y x ch.
                  if nat top' \<le> y \<and> y < nat top' + rows img \<and> nat left' \<le> x \<and> x < nat left' + cols img
                  then pixel img (y - nat top') (x - nat left') ch else 0)\<rparr>)"

fun collect :: "('a \<Rightarrow> py_error + 'b) \<Rightarrow> 'a list \<Rightarrow> py_error + 'b list" where
  "collect f [] = Inr []"
| "collect f (x # xs) =
     (case f x of
        Inl e \<Rightarrow> Inl e
      | Inr y \<Rightarrow> (case collect f xs of Inl e \<Rightarrow> Inl e | Inr ys \<Rightarrow> Inr (y # ys)))"

definition get_images_to_original_dimensions ::
  "image list \<Rightarrow> int \<Rightarrow> int \<Rightarrow> int \<Rightarrow> int \<Rightarrow> py_error + image list" where
  "get_images_to_original_dimensions images top' bottom' left' right' =
     collect (\<lambda>img. copyMakeBorder img top' bottom' left' right') images"

section \<open>Arrays in a store\<close>

text \<open>
  The functions above compute values.  NumPy arrays are objects that can be written in
  place, and two statements of the voter do so: \<^verbatim>\<open>points_2d /= points_2d[-1, :]\<close> and
  \<^verbatim>\<open>points_in_mask[indices_in_image] = res\<close>.  To speak about which arrays a call leaves alone,
  the arrays live in a store, a function passes addresses, and every array creation and every
  in-place write is a step on the store.
\<close>

type_synonym addr = nat

datatype ndarray =
    Matrix matrix
  | Floats "npfloat list list"
  | Ints "int list list"
  | Mask mask
  | Votes "int list"
  | VoteRows "int list list"

record store =
  cells :: "addr \<Rightarrow> ndarray option"
  next_free :: addr

text \<open>A new array gets the next free address.\<close>

definition alloc :: "ndarray \<Rightarrow> store \<Rightarrow> addr \<times> store" where
  "alloc v s =
     (next_free s, s\<lparr>cells := (cells s)(next_free s \<mapsto> v), next_free := Suc (next_free s)\<rparr>)"

text \<open>An in-place write replaces the contents at an address.\<close>

definition overwrite :: "addr \<Rightarrow> ndarray \<Rightarrow> store \<Rightarrow> store" where
  "overwrite a v s = s\<lparr>cells := (cells s)(a \<mapsto> v)\<rparr>"

text \<open>
  \<^verbatim>\<open>get_pixel_points\<close> on the store: the product is a new array; the division writes into
  that array; \<^verbatim>\<open>np.round\<close> and \<^verbatim>\<open>astype\<close> each make a new array.  The store is returned
  also when the call raises.
\<close>

definition get_pixel_points_st ::
  "(npfloat \<Rightarrow> int) \<Rightarrow> addr \<Rightarrow> addr \<Rightarrow> store \<Rightarrow> (py_error + addr) \<times> store" where
  "get_pixel_points_st c ppm points s =
     (case (cells s ppm, cells s points) of
        (Some (Matrix a), Some (Matrix b)) \<Rightarrow>
          (case matmul a b of
             Inl e \<Rightarrow> (Inl e, s)
           | Inr h \<Rightarrow>
               let (points_2d, s1) = alloc (Matrix h) s
               in if h = [] then (Inl IndexError, s1)
                  else
                    let divided = map (\<lambda>row. map2 np_div row (last h)) h;
                        s2 = overwrite points_2d (Floats divided) s1;
                        (rounded, s3) = alloc (Floats (map (map np_round) divided)) s2;
                        (as_int, s4) =
                          alloc (Ints (map (map (astype_int c)) (map (map np_round) divided))) s3
                    in (Inr as_int, s4))
      | _ \<Rightarrow> (Inl TypeError, s))"

text \<open>
  One pass of the voting loop on the store: \<^verbatim>\<open>np.zeros\<close> makes the vote array, the indexed
  assignment writes into it.
\<close>

definition vote_st ::
  "(npfloat \<Rightarrow> int) \<Rightarrow> addr \<Rightarrow> addr \<Rightarrow> addr \<Rightarrow> store \<Rightarrow> (py_error + addr) \<times> store" where
  "vote_st c ppm img points s =
     (case get_pixel_points_st c ppm points s of
        (Inl e, s1) \<Rightarrow> (Inl e, s1)
      | (Inr points_2d, s1) \<Rightarrow>
          (case (cells s1 points_2d, cells s1 img) of
             (Some (Ints p), Some (Mask m)) \<Rightarrow>
               let (points_in_mask, s2) = alloc (Votes (replicate (ncols p) 0)) s1
               in (case points_in_mask_of m p of
                     Inl e \<Rightarrow> (Inl e, s2)
                   | Inr v \<Rightarrow> (Inr points_in_mask, overwrite points_in_mask (Votes v) s2))
           | _ \<Rightarrow> (Inl TypeError, s1)))"

fun voting_loop_st ::
  "(npfloat \<Rightarrow> int) \<Rightarrow> (addr \<times> addr) list \<Rightarrow> addr \<Rightarrow> store \<Rightarrow> (py_error + addr list) \<times> store" where
  "voting_loop_st c [] points s = (Inr [], s)"
| "voting_loop_st c ((ppm, img) # rest) points s =
     (case vote_st c ppm img points s of
        (Inl e, s1) \<Rightarrow> (Inl e, s1)
      | (Inr v, s1) \<Rightarrow>
          (case voting_loop_st c rest points s1 of
             (Inl e, s2) \<Rightarrow> (Inl e, s2)
           | (Inr vs, s2) \<Rightarrow> (Inr (v # vs), s2)))"

text \<open>\<^verbatim>\<open>np.vstack\<close> reads the vote arrays the list refers to and makes a new array.\<close>

fun read_votes :: "store \<Rightarrow> addr list \<Rightarrow> py_error + int list list" where
  "read_votes s [] = Inr []"
| "read_votes s (a # as) =
     (case cells s a of
        Some (Votes v) \<Rightarrow> (case read_votes s as of Inl e \<Rightarrow> Inl e | Inr vs \<Rightarrow> Inr (v # vs))
      | _ \<Rightarrow> Inl TypeError)"

definition voter_st ::
  "(npfloat \<Rightarrow> int) \<Rightarrow> addr list \<Rightarrow> addr list \<Rightarrow> addr \<Rightarrow> store \<Rightarrow> (py_error + addr) \<times> store" where
  "voter_st c images_masks ppms voxel_points s =
     (case voting_loop_st c (zip ppms images_masks) voxel_points s of
        (Inl e, s1) \<Rightarrow> (Inl e, s1)
      | (Inr voxel_points_in_mask, s1) \<Rightarrow>
          (case read_votes s1 voxel_points_in_mask of
             Inl e \<Rightarrow> (Inl e, s1)
           | Inr vote_rows \<Rightarrow>
               (case np_vstack vote_rows of
                  Inl e \<Rightarrow> (Inl e, s1)
                | Inr stacked \<Rightarrow>
                    let (r, s2) = alloc (VoteRows stacked) s1 in (Inr r, s2))))"

text \<open>Any number of calls of the voter, one after the other.\<close>

fun voter_calls ::
  "nat \<Rightarrow> (npfloat \<Rightarrow> int) \<Rightarrow> addr list \<Rightarrow> addr list \<Rightarrow> addr \<Rightarrow> store \<Rightarrow> store" where
  "voter_calls 0 c images_masks ppms voxel_points s = s"
| "voter_calls (Suc n) c images_masks ppms voxel_points s =
     voter_calls n c images_masks ppms voxel_points
       (snd (voter_st c images_masks ppms voxel_points s))"

text \<open>\<open>keeps s s'\<close>: every array of \<open>s\<close> has the same contents in \<open>s'\<close>.\<close>

definition keeps :: "store \<Rightarrow> store \<Rightarrow> bool" where
  "keeps s s' = (next_free s \<le> next_free s' \<and> (\<forall>a<next_free s. cells s' a = cells s a))"

text \<open>\<open>holds s a v\<close>: the array at the allocated address \<open>a\<close> has the contents \<open>v\<close>.\<close>

definition holds :: "store \<Rightarrow> addr \<Rightarrow> ndarray \<Rightarrow> bool" where
  "holds s a v = (a < next_free s \<and> cells s a = Some v)"

text \<open>The contents at an address, read as stacked votes or as a matrix.\<close>

definition votes_at :: "store \<Rightarrow> addr \<Rightarrow> int list list" where
  "votes_at s a = (case cells s a of Some (VoteRows v) \<Rightarrow> v | _ \<Rightarrow> [])"

definition matrix_at :: "store \<Rightarrow> addr \<Rightarrow> matrix" where
  "matrix_at s a = (case cells s a of Some (Matrix v) \<Rightarrow> v | _ \<Rightarrow> [])"

section \<open>Notions used in the statements\<close>

text \<open>The entry \<open>(k, j)\<close> of \<^verbatim>\<open>ppm @ points\<close>.\<close>

definition homogeneous :: "matrix \<Rightarrow> matrix \<Rightarrow> nat \<Rightarrow> nat \<Rightarrow> rat" where
  "homogeneous ppm points k j =
     sum_list (map (\<lambda>l. ppm ! k ! l * points ! l ! j) [0..<length points])"

text \<open>One entry of the projector's result: divide, round, convert.\<close>

definition pixel_of :: "(npfloat \<Rightarrow> int) \<Rightarrow> rat \<Rightarrow> rat \<Rightarrow> int" where
  "pixel_of c x w = astype_int c (np_round (np_div x w))"

definition in_frame :: "mask \<Rightarrow> int \<Rightarrow> int \<Rightarrow> bool" where
  "in_frame img px py = (0 \<le> px \<and> px < int (shape1 img) \<and> 0 \<le> py \<and> py < int (shape0 img))"

definition vote_of :: "mask \<Rightarrow> int \<Rightarrow> int \<Rightarrow> int" where
  "vote_of img px py =
     (if in_frame img px py \<and> item img (nat py) (nat px) \<noteq> 0 then 1 else 0)"


text \<open>The votes of one view, entry by entry.\<close>

definition view_votes :: "(npfloat \<Rightarrow> int) \<Rightarrow> matrix \<Rightarrow> mask \<Rightarrow> matrix \<Rightarrow> nat \<Rightarrow> int list" where
  "view_votes c ppm img points m =
     map (\<lambda>i. vote_of img
                 (pixel_of c (homogeneous ppm points 0 i) (homogeneous ppm points 2 i))
                 (pixel_of c (homogeneous ppm points 1 i) (homogeneous ppm points 2 i)))
       [0..<m]"

text \<open>Example inputs for the closed instances below.\<close>

definition ex_mask :: mask where
  "ex_mask = \<lparr>shape0 = 2, shape1 = 3, item = (\<lambda>y x. if y = 1 \<and> x = 2 then 255 else 0)\<rparr>"

definition ex_ppm :: matrix where
  "ex_ppm = [[1, 0, 0, 0], [0, 1, 0, 0], [0, 0, 0, 1]]"

definition ex_points :: matrix where
  "ex_points = [[2, 3, 0, 5 / 2, 2], [1, 1, 1, 1, 2], [0, 0, 0, 0, 0], [1, 1, 1, 1, 1]]"

definition ex_image :: image where
  "ex_image = \<lparr>rows = 2, cols = 2, pixel = (\<lambda>y x ch. 7)\<rparr>"

text \<open>
  The conversion of a non-finite float to int64 by the hardware: AArch64 saturates and maps
  NaN to 0, x86-64 returns the smallest int64 for all of them.
\<close>

definition aarch64_cast :: "npfloat \<Rightarrow> int" where
  "aarch64_cast v = (case v of PosInf \<Rightarrow> 2 ^ 63 - 1 | NegInf \<Rightarrow> - (2 ^ 63) | _ \<Rightarrow> 0)"

definition ex_zero_ppm :: matrix where
  "ex_zero_ppm = [[0, 0, 0, 0], [0, 0, 0, 0], [0, 0, 0, 0]]"

definition ex_full_mask :: mask where
  "ex_full_mask = \<lparr>shape0 = 2, shape1 = 3, item = (\<lambda>y x. 255)\<rparr>"

definition x86_cast :: "npfloat \<Rightarrow> int" where
  "x86_cast v = - (2 ^ 63)"

text \<open>An example store: the grid at address 0, a projection matrix at 1, a mask at 2.\<close>

definition ex_store :: store where
  "ex_store = \<lparr>cells = [0 \<mapsto> Matrix ex_points, 1 \<mapsto> Matrix ex_ppm, 2 \<mapsto> Mask ex_mask],
     next_free = 3\<rparr>"

section \<open>The voter, one mask at a time\<close>

lemma assign_at_map:
  "set idx \<subseteq> {..<length a} \<Longrightarrow>
   assign_at a idx (map h idx) = map (\<lambda>j. if j \<in> set idx then h j else a ! j) [0..<length a]"
proof (induction idx arbitrary: a)
  case Nil
  then show ?case by (simp add: assign_at_def map_nth)
next
  case (Cons i idx)
  have "assign_at a (i # idx) (map h (i # idx)) = assign_at (a[i := h i]) idx (map h idx)"
    by (simp add: assign_at_def)
  also have "\<dots> = map (\<lambda>j. if j \<in> set idx then h j else a[i := h i] ! j) [0..<length a]"
    using Cons.IH [of "a[i := h i]"] Cons.prems by simp
  also have "\<dots> = map (\<lambda>j. if j \<in> set (i # idx) then h j else a ! j) [0..<length a]"
    by (rule map_cong) (auto simp: nth_list_update)
  finally show ?case .
qed

lemma norm_index_in_range: "0 \<le> i \<Longrightarrow> i < int n \<Longrightarrow> norm_index n i = Inr (nat i)"
  by (simp add: norm_index_def)

lemma fancy_index_in_range:
  "list_all (\<lambda>i. 0 \<le> y i \<and> y i < int (shape0 img) \<and> 0 \<le> x i \<and> x i < int (shape1 img)) idx \<Longrightarrow>
   fancy_index img (map y idx) (map x idx) = Inr (map (\<lambda>i. item img (nat (y i)) (nat (x i))) idx)"
  by (induction idx) (simp_all add: norm_index_in_range)



lemma points_in_mask_of_rows:
  assumes "length xs = m" "length ys = m" "rest \<noteq> []"
  shows "points_in_mask_of img (xs # ys # rest) = Inr (map (\<lambda>i. vote_of img (xs ! i) (ys ! i)) [0..<m])"
proof -
  let ?P = "\<lambda>i. in_frame img (xs ! i) (ys ! i)"
  let ?pin = "map2 (\<and>) (map (\<lambda>x. 0 \<le> x \<and> x < int (shape1 img)) xs) (map (\<lambda>y. 0 \<le> y \<and> y < int (shape0 img)) ys)"
  let ?idx = "filter ?P [0..<m]"
  have len: "length ?pin = m" using assms by simp
  have idx: "np_where ?pin = ?idx"
    unfolding np_where_def len
    by (rule filter_cong) (use assms in \<open>auto simp: in_frame_def\<close>)
  have bl: "butlast (xs # ys # rest) = xs # ys # butlast rest"
    using assms by simp
  have fi: "fancy_index img (map ((!) ys) ?idx) (map ((!) xs) ?idx)
      = Inr (map (\<lambda>i. item img (nat (ys ! i)) (nat (xs ! i))) ?idx)"
    by (rule fancy_index_in_range) (auto simp: list_all_iff in_frame_def)
  have sub: "set ?idx \<subseteq> {..<length (replicate m (0::int))}" by auto
  have asg: "assign_at (replicate m (0::int)) ?idx
        (map (\<lambda>i. if item img (nat (ys ! i)) (nat (xs ! i)) \<noteq> 0 then 1 else 0) ?idx)
      = map (\<lambda>i. vote_of img (xs ! i) (ys ! i)) [0..<m]"
    unfolding assign_at_map [OF sub]
    by (auto simp: vote_of_def)
  show ?thesis
    using assms(3)
    by (simp add: points_in_mask_of_def Let_def ncols_def idx bl fi asg assms(1) comp_def)
qed

section \<open>The projector on a \<open>3 \<times> 4\<close> matrix\<close>

lemma is_matrix_3D:
  assumes "is_matrix 3 k a"
  obtains r0 r1 r2 where "a = [r0, r1, r2]" "length r0 = k" "length r1 = k" "length r2 = k"
proof -
  from assms have "length a = 3" by (simp add: is_matrix_def)
  then obtain r0 r1 r2 where a: "a = [r0, r1, r2]"
    by (auto simp: length_Suc_conv numeral_3_eq_3)
  with assms that show thesis by (simp add: is_matrix_def)
qed

lemma ncols_is_matrix: "is_matrix (Suc r) k a \<Longrightarrow> ncols a = k"
  by (cases a) (simp_all add: is_matrix_def ncols_def)

lemma matmul_rows:
  assumes "is_matrix r (length b) a"
  shows "matmul a b = Inr (map (\<lambda>i. map (\<lambda>j. homogeneous a b i j) [0..<ncols b]) [0..<r])"
proof -
  have la: "length a = r" and rows: "list_all (\<lambda>row. length row = length b) a"
    using assms by (simp_all add: is_matrix_def)
  have "map (\<lambda>row. map (\<lambda>j. sum_list (map (\<lambda>k. row ! k * b ! k ! j) [0..<length b])) [0..<ncols b]) a
      = map (\<lambda>i. map (\<lambda>j. homogeneous a b i j) [0..<ncols b]) [0..<r]"
    by (rule nth_equalityI) (simp_all add: la homogeneous_def)
  with rows show ?thesis by (simp add: matmul_def)
qed


lemma get_pixel_points_rows:
  assumes "is_matrix 3 4 ppm" "is_matrix 4 m points"
  shows "get_pixel_points c ppm points =
    Inr (map (\<lambda>k. map (\<lambda>j. pixel_of c (homogeneous ppm points k j) (homogeneous ppm points 2 j)) [0..<m])
          [0..<3])"
proof -
  have lp: "length points = 4" and nc: "ncols points = m"
    using assms(2) ncols_is_matrix [of 3 m points] by (simp_all add: is_matrix_def)
  have mm: "matmul ppm points = Inr (map (\<lambda>i. map (\<lambda>j. homogeneous ppm points i j) [0..<m]) [0..<3])"
    using matmul_rows [of 3 points ppm] assms(1) by (simp add: lp nc)
  have up: "[0..<3] = [0, 1, 2]" by (simp add: upt_rec)
  show ?thesis
    unfolding get_pixel_points_def mm
    by (simp add: up Let_def pixel_of_def zip_map_map comp_def split_def del: upt_Suc)
      (simp add: map_eq_conv zip_same_conv_map)
qed

section \<open>The voting loop\<close>

lemma get_pixel_points_three:
  assumes "is_matrix 3 4 ppm" "is_matrix 4 m points"
  shows "get_pixel_points c ppm points =
    Inr [map (\<lambda>j. pixel_of c (homogeneous ppm points 0 j) (homogeneous ppm points 2 j)) [0..<m],
         map (\<lambda>j. pixel_of c (homogeneous ppm points 1 j) (homogeneous ppm points 2 j)) [0..<m],
         map (\<lambda>j. pixel_of c (homogeneous ppm points 2 j) (homogeneous ppm points 2 j)) [0..<m]]"
proof -
  have up: "[0..<3] = [0, 1, 2]" by (simp add: upt_rec)
  show ?thesis
    unfolding get_pixel_points_rows [OF assms] up by simp
qed

lemma one_view:
  assumes "is_matrix 3 4 ppm" "is_matrix 4 m points"
  shows "\<exists>p. get_pixel_points c ppm points = Inr p \<and>
             points_in_mask_of img p = Inr (view_votes c ppm img points m)"
  unfolding get_pixel_points_three [OF assms]
  by (simp add: points_in_mask_of_rows [where m = m] view_votes_def)

lemma voting_loop_rows:
  assumes "is_matrix 4 m points" "list_all (\<lambda>job. is_matrix 3 4 (fst job)) jobs"
  shows "voting_loop c jobs points = Inr (map (\<lambda>job. view_votes c (fst job) (snd job) points m) jobs)"
  using assms(2)
proof (induction jobs)
  case Nil
  then show ?case by simp
next
  case (Cons job jobs)
  obtain ppm img where job: "job = (ppm, img)" by (cases job)
  from Cons.prems job have "is_matrix 3 4 ppm" by simp
  from one_view [OF this assms(1), of c img] obtain p where
    "get_pixel_points c ppm points = Inr p"
    "points_in_mask_of img p = Inr (view_votes c ppm img points m)" by blast
  moreover from Cons have "voting_loop c jobs points
      = Inr (map (\<lambda>job. view_votes c (fst job) (snd job) points m) jobs)" by simp
  ultimately show ?case by (simp add: job)
qed

lemma voter_rows:
  assumes "is_matrix 4 m points" "list_all (is_matrix 3 4) ppms" "ppms \<noteq> []" "images_masks \<noteq> []"
  shows "get_voxel_points_projection_is_in_images_mask c images_masks ppms points =
    Inr (map (\<lambda>job. view_votes c (fst job) (snd job) points m) (zip ppms images_masks))"
proof -
  have "list_all (\<lambda>job. is_matrix 3 4 (fst job)) (zip ppms images_masks)"
    using assms(2) by (auto simp: list_all_iff dest: set_zip_leftD)
  from voting_loop_rows [OF assms(1) this]
  have loop: "voting_loop c (zip ppms images_masks) points =
    Inr (map (\<lambda>job. view_votes c (fst job) (snd job) points m) (zip ppms images_masks))" .
  have ne: "zip ppms images_masks \<noteq> []"
    using assms(3,4) by (cases ppms; cases images_masks) simp_all
  have len: "length (view_votes c a b points m) = m" for a b
    by (simp add: view_votes_def)
  have "np_vstack (map (\<lambda>job. view_votes c (fst job) (snd job) points m) (zip ppms images_masks))
      = Inr (map (\<lambda>job. view_votes c (fst job) (snd job) points m) (zip ppms images_masks))"
    using ne by (simp add: np_vstack_def list_all_iff hd_map len)
  then show ?thesis
    unfolding get_voxel_points_projection_is_in_images_mask_def loop by simp
qed

section \<open>Claim C1: the vote of a voxel\<close>

text \<open>
  Claim C1.  For an \<open>H \<times> W\<close> mask (the \<open>k\<close>-th of the sequence), its \<open>3 \<times> 4\<close> projection
  matrix and a grid of \<open>m\<close> homogeneous points, the voter returns a vote vector of length
  \<open>m\<close> for that view, and the vote of voxel \<open>i\<close> is decided by its rounded pixel projection
  \<open>(xs ! i, ys ! i)\<close>, the entries of rows 0 and 1 of \<open>get_pixel_points\<close>: the vote is 1 if and
  only if \<open>0 \<le> px < W\<close> and \<open>0 \<le> py < H\<close> and the mask is true (nonzero) at row \<open>py\<close>, column
  \<open>px\<close>; in every other case, so for an in-frame point on a false pixel and for every
  out-of-frame point (\<open>px = W\<close> and \<open>py = H\<close> included), the vote is 0.
\<close>

theorem vote_is_one_iff_in_frame_and_in_mask:
  assumes "is_matrix 4 m voxel_points" "list_all (is_matrix 3 4) ppms"
    and "k < length ppms" "k < length images_masks" "i < m"
    and "shape0 (images_masks ! k) = H" "shape1 (images_masks ! k) = W"
  shows "\<exists>votes xs ys ws.
     get_voxel_points_projection_is_in_images_mask c images_masks ppms voxel_points = Inr votes \<and>
     get_pixel_points c (ppms ! k) voxel_points = Inr [xs, ys, ws] \<and>
     length votes = min (length ppms) (length images_masks) \<and>
     length (votes ! k) = m \<and> length xs = m \<and> length ys = m \<and>
     (votes ! k ! i = 1 \<longleftrightarrow>
        0 \<le> xs ! i \<and> xs ! i < int W \<and> 0 \<le> ys ! i \<and> ys ! i < int H \<and>
        item (images_masks ! k) (nat (ys ! i)) (nat (xs ! i)) \<noteq> 0) \<and>
     (votes ! k ! i = 0 \<longleftrightarrow>
        \<not> (0 \<le> xs ! i \<and> xs ! i < int W \<and> 0 \<le> ys ! i \<and> ys ! i < int H \<and>
           item (images_masks ! k) (nat (ys ! i)) (nat (xs ! i)) \<noteq> 0))"
proof -
  let ?jobs = "zip ppms images_masks"
  let ?votes = "map (\<lambda>job. view_votes c (fst job) (snd job) voxel_points m) ?jobs"
  have ne: "ppms \<noteq> []" "images_masks \<noteq> []" using assms(3,4) by auto
  have v: "get_voxel_points_projection_is_in_images_mask c images_masks ppms voxel_points = Inr ?votes"
    by (rule voter_rows [OF assms(1,2) ne])
  have pk: "is_matrix 3 4 (ppms ! k)"
    using assms(2,3) by (simp add: list_all_length)
  define xs where "xs = map (\<lambda>j. pixel_of c (homogeneous (ppms ! k) voxel_points 0 j)
      (homogeneous (ppms ! k) voxel_points 2 j)) [0..<m]"
  define ys where "ys = map (\<lambda>j. pixel_of c (homogeneous (ppms ! k) voxel_points 1 j)
      (homogeneous (ppms ! k) voxel_points 2 j)) [0..<m]"
  define ws where "ws = map (\<lambda>j. pixel_of c (homogeneous (ppms ! k) voxel_points 2 j)
      (homogeneous (ppms ! k) voxel_points 2 j)) [0..<m]"
  have gp: "get_pixel_points c (ppms ! k) voxel_points = Inr [xs, ys, ws]"
    unfolding get_pixel_points_three [OF pk assms(1)] xs_def ys_def ws_def ..
  have row: "?votes ! k = view_votes c (ppms ! k) (images_masks ! k) voxel_points m"
    using assms(3,4) by simp
  have vote: "?votes ! k ! i = vote_of (images_masks ! k) (xs ! i) (ys ! i)"
    unfolding row using assms(5) by (simp add: view_votes_def xs_def ys_def)
  have len: "length ?votes = min (length ppms) (length images_masks)"
    "length (?votes ! k) = m" "length xs = m" "length ys = m"
    unfolding row by (simp_all add: view_votes_def xs_def ys_def)
  have one: "?votes ! k ! i = 1 \<longleftrightarrow>
        0 \<le> xs ! i \<and> xs ! i < int W \<and> 0 \<le> ys ! i \<and> ys ! i < int H \<and>
        item (images_masks ! k) (nat (ys ! i)) (nat (xs ! i)) \<noteq> 0"
    unfolding vote using assms(6,7) by (simp add: vote_of_def in_frame_def)
  have zero: "?votes ! k ! i = 0 \<longleftrightarrow>
        \<not> (0 \<le> xs ! i \<and> xs ! i < int W \<and> 0 \<le> ys ! i \<and> ys ! i < int H \<and>
           item (images_masks ! k) (nat (ys ! i)) (nat (xs ! i)) \<noteq> 0)"
    unfolding vote using assms(6,7) by (simp add: vote_of_def in_frame_def)
  from v gp len one zero show ?thesis by blast
qed

text \<open>The theorem at the example input: voxel 3 projects to \<open>(2, 1)\<close>, a foreground pixel.\<close>

theorem vote_is_one_iff_in_frame_and_in_mask_witness:
  "is_matrix 4 5 ex_points \<and> list_all (is_matrix 3 4) [ex_ppm] \<and>
   (0::nat) < length [ex_ppm] \<and> (0::nat) < length [ex_mask] \<and> (3::nat) < 5 \<and>
   shape0 ([ex_mask] ! 0) = 2 \<and> shape1 ([ex_mask] ! 0) = 3 \<and>
   get_pixel_points x86_cast ([ex_ppm] ! 0) ex_points
     = Inr [[2, 3, 0, 2, 2], [1, 1, 1, 1, 2], [1, 1, 1, 1, 1]] \<and>
   (\<exists>votes. get_voxel_points_projection_is_in_images_mask x86_cast [ex_mask] [ex_ppm] ex_points
        = Inr votes \<and> votes ! 0 ! 3 = 1)"
proof -
  have a: "is_matrix 4 5 ex_points" by code_simp
  have b: "list_all (is_matrix 3 4) [ex_ppm]" by code_simp
  have s: "shape0 ([ex_mask] ! 0) = 2" "shape1 ([ex_mask] ! 0) = 3" by code_simp+
  have gp: "get_pixel_points x86_cast ([ex_ppm] ! 0) ex_points
     = Inr [[2, 3, 0, 2, 2], [1, 1, 1, 1, 2], [1, 1, 1, 1, 1]]" by code_simp
  have it: "item ([ex_mask] ! 0) (nat 1) (nat 2) \<noteq> 0" by code_simp
  from vote_is_one_iff_in_frame_and_in_mask [where ppms = "[ex_ppm]" and images_masks = "[ex_mask]"
      and k = 0 and i = 3 and m = 5 and c = x86_cast, OF a b _ _ _ s]
  obtain votes xs ys ws where
    v: "get_voxel_points_projection_is_in_images_mask x86_cast [ex_mask] [ex_ppm] ex_points = Inr votes"
    and g: "get_pixel_points x86_cast ([ex_ppm] ! 0) ex_points = Inr [xs, ys, ws]"
    and iff: "votes ! 0 ! 3 = 1 \<longleftrightarrow>
        0 \<le> xs ! 3 \<and> xs ! 3 < int 3 \<and> 0 \<le> ys ! 3 \<and> ys ! 3 < int 2 \<and>
        item ([ex_mask] ! 0) (nat (ys ! 3)) (nat (xs ! 3)) \<noteq> 0"
    by auto
  from g gp have "xs = [2, 3, 0, 2, 2]" "ys = [1, 1, 1, 1, 2]" by simp_all
  with iff it have "votes ! 0 ! 3 = 1" by simp
  with a b s gp v show ?thesis by auto
qed

section \<open>Claim C2: the projector\<close>










section \<open>Claim C3: the grid builder\<close>













section \<open>Claim C4: filtering by minimum occupancy\<close>

lemma zip_as_map_upt:
  assumes "length xs = m" "length ys = m"
  shows "zip xs ys = map (\<lambda>j. (xs ! j, ys ! j)) [0..<m]"
  by (rule nth_equalityI) (simp_all add: assms)

lemma select_columns_row:
  assumes "length row = m" "length occ = m"
  shows "map fst (filter snd (zip row (map P occ)))
       = map ((!) row) (filter (\<lambda>j. P (occ ! j)) [0..<m])"
proof -
  have "zip row (map P occ) = map (\<lambda>j. (row ! j, P (occ ! j))) [0..<m]"
    by (rule nth_equalityI) (simp_all add: assms)
  then show ?thesis
    by (simp add: filter_map comp_def)
qed

lemma ncols_rows:
  assumes "a \<noteq> []" "list_all (\<lambda>row. length row = m) a"
  shows "ncols a = m"
  using assms by (cases a) (simp_all add: ncols_def)

text \<open>
  Claim C4.  For a voxel grid with \<open>m\<close> columns, an occupancy array of length \<open>m\<close> and any
  integer \<open>min_occupancy\<close>, \<open>get_voxel_points_by_minimum_occupancy\<close> returns the columns
  whose count is at least \<open>min_occupancy\<close> and no others: the kept column positions \<open>keep\<close>
  are exactly those positions, in ascending order, so every row of the result is a
  subsequence of the row it comes from, in the original relative order.
\<close>

theorem minimum_occupancy_keeps_columns_in_order:
  assumes "is_matrix r m voxel_points" "0 < r" "length occupancy = m"
  shows "\<exists>keep. sorted_wrt (<) keep \<and>
           set keep = {j. j < m \<and> min_occupancy \<le> occupancy ! j} \<and>
           get_voxel_points_by_minimum_occupancy voxel_points occupancy min_occupancy
             = Inr (map (\<lambda>row. map ((!) row) keep) voxel_points) \<and>
           list_all2 (\<lambda>out row. subseq out row)
             (map (\<lambda>row. map ((!) row) keep) voxel_points) voxel_points"
proof -
  define keep where "keep = filter (\<lambda>j. min_occupancy \<le> occupancy ! j) [0..<m]"
  have s: "sorted_wrt (<) keep"
    unfolding keep_def by (rule sorted_wrt_filter) simp
  have k: "set keep = {j. j < m \<and> min_occupancy \<le> occupancy ! j}"
    unfolding keep_def by auto
  have rows: "list_all (\<lambda>row. length row = m) voxel_points" and ne: "voxel_points \<noteq> []"
    using assms(1,2) by (auto simp: is_matrix_def)
  have nc: "ncols voxel_points = m" by (rule ncols_rows [OF ne rows])
  have sel: "map fst (filter snd (zip row (map (\<lambda>n. min_occupancy \<le> n) occupancy)))
      = map ((!) row) keep" if "row \<in> set voxel_points" for row
    unfolding keep_def
    using that rows by (intro select_columns_row assms(3)) (simp add: list_all_iff)
  have r: "get_voxel_points_by_minimum_occupancy voxel_points occupancy min_occupancy
      = Inr (map (\<lambda>row. map ((!) row) keep) voxel_points)"
    unfolding get_voxel_points_by_minimum_occupancy_def bool_index_columns_def
    using sel by (simp add: nc assms(3))
  have sub: "subseq (map ((!) row) keep) row" if "row \<in> set voxel_points" for row
  proof -
    have "map fst (filter snd (zip row (map (\<lambda>n. min_occupancy \<le> n) occupancy)))
        = map ((!) row) keep" by (rule sel [OF that])
    moreover have "length row = length (map (\<lambda>n. min_occupancy \<le> n) occupancy)"
      using that rows assms(3) by (simp add: list_all_iff)
    then have "subseq (map fst (filter snd (zip row (map (\<lambda>n. min_occupancy \<le> n) occupancy)))) row"
      by (metis subseq_filter_left subseq_map map_fst_zip)
    ultimately show ?thesis by simp
  qed
  have l2: "list_all2 (\<lambda>out row. subseq out row)
             (map (\<lambda>row. map ((!) row) keep) voxel_points) voxel_points"
    using sub by (simp add: list_all2_map1 list_all2_same)
  from s k r l2 show ?thesis by blast
qed

text \<open>The theorem on a grid of three voxels with counts 2, 0, 3 and threshold 2.\<close>

theorem minimum_occupancy_keeps_columns_in_order_witness:
  "is_matrix 4 3 [[10, 20, 30], [1, 2, 3], [0, 0, 0], [1, 1, 1 :: int]] \<and> (0::nat) < 4 \<and>
   length [2, 0, 3 :: int] = 3 \<and>
   get_voxel_points_by_minimum_occupancy [[10, 20, 30], [1, 2, 3], [0, 0, 0], [1, 1, 1 :: int]]
      [2, 0, 3] 2 = Inr [[10, 30], [1, 3], [0, 0], [1, 1]] \<and>
   (\<exists>keep. sorted_wrt (<) keep \<and>
      set keep = {j. j < 3 \<and> 2 \<le> [2, 0, 3 :: int] ! j} \<and>
      get_voxel_points_by_minimum_occupancy [[10, 20, 30], [1, 2, 3], [0, 0, 0], [1, 1, 1 :: int]]
        [2, 0, 3] 2
        = Inr (map (\<lambda>row. map ((!) row) keep) [[10, 20, 30], [1, 2, 3], [0, 0, 0], [1, 1, 1]]))"
proof -
  let ?g = "[[10, 20, 30], [1, 2, 3], [0, 0, 0], [1, 1, 1 :: int]]"
  have a: "is_matrix 4 3 ?g" by code_simp
  have b: "(0::nat) < 4" by simp
  have c: "length [2, 0, 3 :: int] = 3" by simp
  have d: "get_voxel_points_by_minimum_occupancy ?g [2, 0, 3] 2 = Inr [[10, 30], [1, 3], [0, 0], [1, 1]]"
    by code_simp
  from minimum_occupancy_keeps_columns_in_order [OF a b c, of 2] a b c d
  show ?thesis by blast
qed

section \<open>Claim C5: votes and occupancy counts\<close>

lemma vote_of_01: "vote_of img px py = 0 \<or> vote_of img px py = 1"
  by (simp add: vote_of_def)

lemma view_votes_01: "list_all (\<lambda>v. v = 0 \<or> v = 1) (view_votes c ppm img points m)"
  by (simp add: view_votes_def list_all_iff vote_of_01)

lemma length_view_votes: "length (view_votes c ppm img points m) = m"
  by (simp add: view_votes_def)

lemma column_sum_bounds:
  assumes "\<And>row. row \<in> set a \<Longrightarrow> row ! j = 0 \<or> row ! j = (1::int)"
  shows "0 \<le> sum_list (map (\<lambda>row. row ! j) a) \<and> sum_list (map (\<lambda>row. row ! j) a) \<le> int (length a)"
  using assms
proof (induction a)
  case Nil
  then show ?case by simp
next
  case (Cons row a)
  from Cons.prems have "row ! j = 0 \<or> row ! j = 1" by simp
  moreover from Cons have "0 \<le> sum_list (map (\<lambda>row. row ! j) a) \<and>
      sum_list (map (\<lambda>row. row ! j) a) \<le> int (length a)" by simp
  ultimately show ?case by auto
qed

lemma voter_Inr_nonempty:
  assumes "get_voxel_points_projection_is_in_images_mask c images_masks ppms points = Inr votes"
  shows "ppms \<noteq> [] \<and> images_masks \<noteq> []"
proof (rule ccontr)
  assume "\<not> (ppms \<noteq> [] \<and> images_masks \<noteq> [])"
  then have "zip ppms images_masks = []" by auto
  with assms show False
    by (simp add: get_voxel_points_projection_is_in_images_mask_def np_vstack_def)
qed

text \<open>
  Claim C5.  Whenever the voter returns its vote vectors for a grid of \<open>m\<close> voxels, there
  is one vector of length \<open>m\<close> per (matrix, mask) pair, every vote is 0 or 1, and every entry
  of the aggregated occupancy count lies between 0 and the number \<open>N\<close> of vote vectors.
\<close>

theorem votes_are_bits_and_occupancy_is_bounded:
  assumes "is_matrix 4 m voxel_points" "list_all (is_matrix 3 4) ppms"
    and "get_voxel_points_projection_is_in_images_mask c images_masks ppms voxel_points = Inr votes"
  shows "is_matrix (min (length ppms) (length images_masks)) m votes \<and>
         list_all (list_all (\<lambda>v. v = 0 \<or> v = 1)) votes \<and>
         length (get_voxel_points_occupancy votes) = m \<and>
         list_all (\<lambda>n. 0 \<le> n \<and> n \<le> int (length votes)) (get_voxel_points_occupancy votes)"
proof -
  from voter_Inr_nonempty [OF assms(3)] have ne: "ppms \<noteq> []" "images_masks \<noteq> []" by simp_all
  have v: "votes = map (\<lambda>job. view_votes c (fst job) (snd job) voxel_points m) (zip ppms images_masks)"
    using voter_rows [OF assms(1,2) ne, of c] assms(3) by simp
  have shape: "is_matrix (min (length ppms) (length images_masks)) m votes"
    by (simp add: v is_matrix_def list_all_iff length_view_votes)
  have bits: "list_all (list_all (\<lambda>v. v = 0 \<or> v = 1)) votes"
    unfolding v by (simp add: list_all_iff) (use view_votes_01 in \<open>auto simp: list_all_iff\<close>)
  have vne: "votes \<noteq> []"
    unfolding v using ne by (cases ppms; cases images_masks) simp_all
  have nc: "ncols votes = m"
    using shape by (intro ncols_rows [OF vne]) (simp add: is_matrix_def)
  have len: "length (get_voxel_points_occupancy votes) = m"
    by (simp add: get_voxel_points_occupancy_def nc)
  have entry: "row ! j = 0 \<or> row ! j = 1" if "row \<in> set votes" "j < m" for row j
  proof -
    from that(1) shape have "length row = m" by (simp add: is_matrix_def list_all_iff)
    with that(2) have "row ! j \<in> set row" by simp
    with bits that(1) show ?thesis by (auto simp: list_all_iff)
  qed
  have occ: "list_all (\<lambda>n. 0 \<le> n \<and> n \<le> int (length votes)) (get_voxel_points_occupancy votes)"
    unfolding get_voxel_points_occupancy_def nc list_all_iff
    using column_sum_bounds [of votes] entry by auto
  from shape bits len occ show ?thesis by blast
qed

text \<open>The theorem on two views of the example grid.\<close>

theorem votes_are_bits_and_occupancy_is_bounded_witness:
  "is_matrix 4 5 ex_points \<and> list_all (is_matrix 3 4) [ex_ppm, ex_ppm] \<and>
   get_voxel_points_projection_is_in_images_mask x86_cast [ex_mask, ex_mask] [ex_ppm, ex_ppm] ex_points
     = Inr [[1, 0, 0, 1, 0], [1, 0, 0, 1, 0]] \<and>
   get_voxel_points_occupancy [[1, 0, 0, 1, 0], [1, 0, 0, 1, 0]] = [2, 0, 0, 2, 0] \<and>
   list_all (\<lambda>n. 0 \<le> n \<and> n \<le> int (length [[1, 0, 0, 1, 0], [1, 0, 0, 1, 0 :: int]]))
     (get_voxel_points_occupancy [[1, 0, 0, 1, 0], [1, 0, 0, 1, 0]])"
proof -
  have a: "is_matrix 4 5 ex_points" by code_simp
  have b: "list_all (is_matrix 3 4) [ex_ppm, ex_ppm]" by code_simp
  have c: "get_voxel_points_projection_is_in_images_mask x86_cast [ex_mask, ex_mask]
      [ex_ppm, ex_ppm] ex_points = Inr [[1, 0, 0, 1, 0], [1, 0, 0, 1, 0]]" by code_simp
  have d: "get_voxel_points_occupancy [[1, 0, 0, 1, 0], [1, 0, 0, 1, 0]] = [2, 0, 0, 2, 0]"
    by code_simp
  from votes_are_bits_and_occupancy_is_bounded [OF a b c] a b c d
  show ?thesis by blast
qed

section \<open>Division by zero in the projector (claim C6)\<close>

text \<open>
  Where the third projected component is zero the quotient is an infinity or NaN, and the
  pixel coordinate is the conversion \<open>c\<close> of that value.  A conversion that yields a
  negative number, as the smallest int64 on x86-64, puts the point out of frame and its vote
  is 0.  A conversion of NaN to 0, as on AArch64, puts a point whose three projected
  components are all zero on pixel \<open>(0, 0)\<close>, and its vote is the mask's value there.
\<close>

lemma zero_divisor_pixel:
  "pixel_of c x 0 = c (if 0 < x then PosInf else if x < 0 then NegInf else NaN)"
  by (simp add: pixel_of_def np_div_def np_round_def astype_int_def)

lemma zero_divisor_votes_zero_if_cast_negative:
  assumes "c PosInf < 0" "c NegInf < 0" "c NaN < 0"
  shows "vote_of img (pixel_of c x 0) (pixel_of c y 0) = 0"
  using assms by (simp add: zero_divisor_pixel vote_of_def in_frame_def)

lemma zero_divisor_votes_zero_on_x86:
  "get_voxel_points_projection_is_in_images_mask x86_cast [ex_full_mask] [ex_zero_ppm] ex_points
     = Inr [[0, 0, 0, 0, 0]]"
  by code_simp

lemma zero_divisor_votes_one_on_aarch64:
  "get_voxel_points_projection_is_in_images_mask aarch64_cast [ex_full_mask] [ex_zero_ppm] ex_points
     = Inr [[1, 1, 1, 1, 1]]"
  by code_simp

section \<open>Claim C7: configuration errors\<close>

lemma get_voxel_grid_points_nonpositive:
  assumes "n \<le> 0"
  shows "get_voxel_grid_points fl n x_min x_max y_min y_max z_min z_max = Inl ValueError"
  using assms
  by (simp add: get_voxel_grid_points_def np_arange_def meshgrid_flat_def min_max_scale_def)

lemma get_voxel_grid_points_one:
  assumes "fl 0 = 0"
  shows "get_voxel_grid_points fl 1 x_min x_max y_min y_max z_min z_max
     = Inr [[NaN], [NaN], [NaN], [Finite 1]]"
  using assms
  by (simp add: get_voxel_grid_points_def np_arange_def meshgrid_flat_def min_max_scale_def
      np_div_def np_add_def rounded_def)

lemma voter_empty:
  assumes "ppms = [] \<or> images_masks = []"
  shows "get_voxel_points_projection_is_in_images_mask c images_masks ppms points = Inl ValueError"
proof -
  from assms have z: "zip ppms images_masks = []" by auto
  show ?thesis
    unfolding get_voxel_points_projection_is_in_images_mask_def z
    by (simp add: np_vstack_def)
qed

lemma voter_truncates:
  "get_voxel_points_projection_is_in_images_mask c images_masks ppms points =
   get_voxel_points_projection_is_in_images_mask c
     (take (min (length ppms) (length images_masks)) images_masks)
     (take (min (length ppms) (length images_masks)) ppms) points"
proof -
  have "zip (take (min (length ppms) (length images_masks)) ppms)
            (take (min (length ppms) (length images_masks)) images_masks)
      = take (min (length ppms) (length images_masks)) (zip ppms images_masks)"
    by (simp add: take_zip)
  also have "\<dots> = zip ppms images_masks" by simp
  finally show ?thesis
    by (simp add: get_voxel_points_projection_is_in_images_mask_def)
qed

text \<open>
  Claim C7, amended.  The code validates nothing ahead of the work; what the caller sees is
  what the array operations raise.  A grid resolution of 0 or less raises \<open>ValueError\<close> (the
  minimum of an empty array), and an empty mask or matrix sequence raises \<open>ValueError\<close> (the
  stacking of no vote vectors, after a loop that did no projection).  A grid resolution of 1
  is not an error: the grid is one point with NaN coordinates (zero divided by zero, for a
  rounding that keeps zero).  Sequences of different
  lengths are not an error: the voter behaves as on both sequences cut to the shorter length.
\<close>

theorem configuration_errors_as_raised:
  "(n \<le> 0 \<longrightarrow>
      get_voxel_grid_points fl n x_min x_max y_min y_max z_min z_max = Inl ValueError) \<and>
   (fl 0 = 0 \<longrightarrow>
      get_voxel_grid_points fl 1 x_min x_max y_min y_max z_min z_max
        = Inr [[NaN], [NaN], [NaN], [Finite 1]]) \<and>
   (ppms = [] \<or> images_masks = [] \<longrightarrow>
      get_voxel_points_projection_is_in_images_mask c images_masks ppms points = Inl ValueError) \<and>
   get_voxel_points_projection_is_in_images_mask c images_masks ppms points =
     get_voxel_points_projection_is_in_images_mask c
       (take (min (length ppms) (length images_masks)) images_masks)
       (take (min (length ppms) (length images_masks)) ppms) points"
proof (intro conjI impI)
  show "get_voxel_grid_points fl n x_min x_max y_min y_max z_min z_max = Inl ValueError" if "n \<le> 0"
    using that by (rule get_voxel_grid_points_nonpositive)
  show "get_voxel_grid_points fl 1 x_min x_max y_min y_max z_min z_max
      = Inr [[NaN], [NaN], [NaN], [Finite 1]]" if "fl 0 = 0"
    using that by (rule get_voxel_grid_points_one)
  show "get_voxel_points_projection_is_in_images_mask c images_masks ppms points = Inl ValueError"
    if "ppms = [] \<or> images_masks = []"
    using that by (rule voter_empty)
  show "get_voxel_points_projection_is_in_images_mask c images_masks ppms points =
     get_voxel_points_projection_is_in_images_mask c
       (take (min (length ppms) (length images_masks)) images_masks)
       (take (min (length ppms) (length images_masks)) ppms) points"
    by (rule voter_truncates)
qed

text \<open>The theorem at resolution 0 and at an empty mask sequence.\<close>

theorem configuration_errors_as_raised_witness:
  "(0::int) \<le> 0 \<and> fl53 0 = 0 \<and>
   get_voxel_grid_points fl53 0 0 1 0 1 0 1 = Inl ValueError \<and>
   get_voxel_grid_points fl53 1 0 1 0 1 0 1 = Inr [[NaN], [NaN], [NaN], [Finite 1]] \<and>
   ([] :: mask list) = [] \<and>
   get_voxel_points_projection_is_in_images_mask x86_cast [] [ex_ppm] ex_points = Inl ValueError \<and>
   get_voxel_points_projection_is_in_images_mask x86_cast [] [ex_ppm] ex_points =
     get_voxel_points_projection_is_in_images_mask x86_cast
       (take (min (length [ex_ppm]) (length ([] :: mask list))) [])
       (take (min (length [ex_ppm]) (length ([] :: mask list))) [ex_ppm]) ex_points"
  using configuration_errors_as_raised [of 0 fl53 0 1 0 1 0 1 "[ex_ppm]" "[]" x86_cast ex_points]
  by (simp add: get_voxel_points_projection_is_in_images_mask_def np_vstack_def fl53_def)

text \<open>
  Claim C7 as stated fails: two masks with one projection matrix give the vote vector of
  the first mask and no error, and resolution 1 gives a grid and no error.
\<close>

theorem mismatched_lengths_are_not_an_error:
  "length [ex_mask, ex_mask] \<noteq> length [ex_ppm] \<and>
   get_voxel_points_projection_is_in_images_mask x86_cast [ex_mask, ex_mask] [ex_ppm] ex_points
     = Inr [[1, 0, 0, 1, 0]] \<and>
   get_voxel_grid_points fl53 1 0 1 0 1 0 1 = Inr [[NaN], [NaN], [NaN], [Finite 1]]"
  by code_simp

section \<open>Claim C8: order independence of the aggregation\<close>

text \<open>
  Claim C8.  For vote vectors of equal length \<open>m\<close>, aggregating any permutation of the
  sequence gives the same occupancy counts as aggregating the sequence itself.
\<close>

theorem occupancy_is_order_independent:
  assumes "mset votes' = mset votes" "list_all (\<lambda>row. length row = m) votes"
  shows "get_voxel_points_occupancy votes' = get_voxel_points_occupancy votes"
proof (cases "votes = []")
  case True
  with assms(1) show ?thesis by simp
next
  case False
  from assms(1) have sets: "set votes' = set votes" by (rule mset_eq_setD)
  with False have ne': "votes' \<noteq> []" by auto
  from assms(2) sets have rows': "list_all (\<lambda>row. length row = m) votes'"
    by (simp add: list_all_iff)
  have nc: "ncols votes = m" "ncols votes' = m"
    by (rule ncols_rows [OF False assms(2)], rule ncols_rows [OF ne' rows'])
  have "sum_list (map (\<lambda>row. row ! j) votes') = sum_list (map (\<lambda>row. row ! j) votes)" for j
  proof -
    have "mset (map (\<lambda>row. row ! j) votes') = mset (map (\<lambda>row. row ! j) votes)"
      using assms(1) by simp
    then show ?thesis by (metis sum_mset_sum_list)
  qed
  then show ?thesis
    by (simp add: get_voxel_points_occupancy_def nc)
qed

text \<open>The theorem on three vote vectors and a rotation of them.\<close>

theorem occupancy_is_order_independent_witness:
  "mset [[0, 0], [1, 1], [1, 0 :: int]] = mset [[1, 0], [0, 0], [1, 1]] \<and>
   list_all (\<lambda>row. length row = 2) [[1, 0], [0, 0], [1, 1 :: int]] \<and>
   get_voxel_points_occupancy [[1, 0], [0, 0], [1, 1]] = [2, 1] \<and>
   get_voxel_points_occupancy [[0, 0], [1, 1], [1, 0]] = [2, 1]"
proof -
  have a: "mset [[0, 0], [1, 1], [1, 0 :: int]] = mset [[1, 0], [0, 0], [1, 1]]" by simp
  have b: "list_all (\<lambda>row. length row = 2) [[1, 0], [0, 0], [1, 1 :: int]]" by simp
  have c: "get_voxel_points_occupancy [[1, 0], [0, 0], [1, 1]] = [2, 1]" by code_simp
  from occupancy_is_order_independent [OF a b] a b c show ?thesis by simp
qed

section \<open>Claim C9: the inputs are left unchanged\<close>

text \<open>
  Every step of the store functions either makes a new array or writes into an array the
  same call has made, so each call keeps every array that existed before it.
\<close>

lemma keeps_refl: "keeps s s"
  by (simp add: keeps_def)

lemma keeps_trans: "keeps s s1 \<Longrightarrow> keeps s1 s2 \<Longrightarrow> keeps s s2"
  by (auto simp: keeps_def)

lemma keeps_alloc: "alloc v s = (a, s') \<Longrightarrow> keeps s s'"
  by (auto simp: alloc_def keeps_def)

lemma alloc_addr: "alloc v s = (a, s') \<Longrightarrow> a = next_free s"
  by (auto simp: alloc_def)

lemma keeps_write_fresh: "keeps s s1 \<Longrightarrow> next_free s \<le> a \<Longrightarrow> keeps s (overwrite a v s1)"
  by (auto simp: overwrite_def keeps_def)

lemma get_pixel_points_st_keeps:
  "get_pixel_points_st c ppm points s = (r, s') \<Longrightarrow> keeps s s'"
  unfolding get_pixel_points_st_def
  by (auto simp: Let_def alloc_def overwrite_def keeps_def
      split: option.splits ndarray.splits sum.splits if_splits prod.splits)

lemma vote_st_keeps:
  assumes "vote_st c ppm img points s = (r, s')"
  shows "keeps s s'"
proof -
  obtain r1 s1 where g: "get_pixel_points_st c ppm points s = (r1, s1)"
    by (cases "get_pixel_points_st c ppm points s")
  from get_pixel_points_st_keeps [OF g] have k1: "keeps s s1" .
  then have "keeps s1 s' \<or> s' = s1 \<or> (\<exists>v z s2. alloc z s1 = (next_free s1, s2) \<and> s' = overwrite (next_free s1) v s2)"
    using assms unfolding vote_st_def g
    by (auto simp: Let_def alloc_def keeps_def split: option.splits ndarray.splits sum.splits prod.splits)
  then show ?thesis
    using k1 by (auto simp: keeps_def alloc_def overwrite_def)
qed

lemma voting_loop_st_keeps:
  "voting_loop_st c jobs points s = (r, s') \<Longrightarrow> keeps s s'"
proof (induction jobs arbitrary: s r s')
  case Nil
  then show ?case by (simp add: keeps_refl)
next
  case (Cons job jobs)
  obtain ppm img where job: "job = (ppm, img)" by (cases job)
  obtain r1 s1 where v: "vote_st c ppm img points s = (r1, s1)"
    by (cases "vote_st c ppm img points s")
  from vote_st_keeps [OF v] have k1: "keeps s s1" .
  show ?case
  proof (cases r1)
    case (Inl e)
    with Cons.prems v job k1 show ?thesis by simp
  next
    case (Inr a)
    obtain r2 s2 where l: "voting_loop_st c jobs points s1 = (r2, s2)"
      by (cases "voting_loop_st c jobs points s1")
    from Cons.IH [OF l] have k2: "keeps s1 s2" .
    from Cons.prems v job Inr l have "s' = s2" by (auto split: sum.splits)
    with keeps_trans [OF k1 k2] show ?thesis by simp
  qed
qed

lemma voter_st_keeps:
  assumes "voter_st c images_masks ppms voxel_points s = (r, s')"
  shows "keeps s s'"
proof -
  obtain r1 s1 where l: "voting_loop_st c (zip ppms images_masks) voxel_points s = (r1, s1)"
    by (cases "voting_loop_st c (zip ppms images_masks) voxel_points s")
  from voting_loop_st_keeps [OF l] have k1: "keeps s s1" .
  from assms have "s' = s1 \<or> (\<exists>v a. alloc v s1 = (a, s'))"
    unfolding voter_st_def l
    by (auto simp: Let_def split: sum.splits prod.splits)
  then have "keeps s1 s'"
    by (auto simp: keeps_refl dest: keeps_alloc)
  with k1 show ?thesis by (rule keeps_trans)
qed

lemma voter_calls_keeps: "keeps s (voter_calls n c images_masks ppms voxel_points s)"
proof (induction n arbitrary: s)
  case 0
  show ?case by (simp add: keeps_refl)
next
  case (Suc n)
  have "keeps s (snd (voter_st c images_masks ppms voxel_points s))"
    by (rule voter_st_keeps [of c images_masks ppms voxel_points s
          "fst (voter_st c images_masks ppms voxel_points s)"]) simp
  with Suc show ?case by (auto intro: keeps_trans)
qed

text \<open>
  The store functions compute what the value functions compute: where \<open>get_pixel_points\<close>
  and the voter return a result on the contents of the arrays, the functions on the store
  return the address of a new array with that result.
\<close>

lemma holds_keeps: "keeps s s' \<Longrightarrow> holds s a v \<Longrightarrow> holds s' a v"
  by (auto simp: holds_def keeps_def)

lemma get_pixel_points_st_result:
  assumes "holds s ppm (Matrix a)" "holds s points (Matrix b)"
    and "get_pixel_points c a b = Inr p"
  shows "\<exists>r s'. get_pixel_points_st c ppm points s = (Inr r, s') \<and> holds s' r (Ints p)"
proof -
  from assms(3) obtain h where h: "matmul a b = Inr h" "h \<noteq> []"
    and p: "p = map (map (\<lambda>v. astype_int c (np_round v))) (map (\<lambda>row. map2 np_div row (last h)) h)"
    by (auto simp: get_pixel_points_def Let_def split: sum.splits if_splits)
  show ?thesis
    using assms(1,2) h
    by (simp add: get_pixel_points_st_def holds_def alloc_def overwrite_def Let_def p comp_def)
qed

lemma vote_st_result:
  assumes "holds s ppm (Matrix a)" "holds s points (Matrix b)" "holds s img (Mask m)"
    and "get_pixel_points c a b = Inr p" "points_in_mask_of m p = Inr v"
  shows "\<exists>r s'. vote_st c ppm img points s = (Inr r, s') \<and> holds s' r (Votes v)"
proof -
  from get_pixel_points_st_result [OF assms(1,2,4)] obtain r1 s1 where
    g: "get_pixel_points_st c ppm points s = (Inr r1, s1)" and r1: "holds s1 r1 (Ints p)"
    by blast
  from get_pixel_points_st_keeps [OF g] assms(3) have "holds s1 img (Mask m)"
    by (rule holds_keeps)
  with r1 show ?thesis
    unfolding vote_st_def g
    by (simp add: holds_def alloc_def overwrite_def Let_def assms(5))
qed

lemma voting_loop_st_result:
  assumes "holds s points (Matrix b)"
    and "list_all2 (\<lambda>aj j. holds s (fst aj) (Matrix (fst j)) \<and> holds s (snd aj) (Mask (snd j))) ajobs jobs"
    and "voting_loop c jobs b = Inr V"
  shows "\<exists>rs s'. voting_loop_st c ajobs points s = (Inr rs, s') \<and>
           list_all2 (\<lambda>r v. holds s' r (Votes v)) rs V"
  using assms
proof (induction ajobs jobs arbitrary: s V rule: list_induct2')
  case 1
  then show ?case by simp
next
  case (2 aj ajobs)
  then show ?case by simp
next
  case (3 j jobs)
  then show ?case by simp
next
  case (4 aj ajobs j jobs)
  obtain pa ia where aj: "aj = (pa, ia)" by (cases aj)
  obtain a m where j: "j = (a, m)" by (cases j)
  from "4.prems"(3) obtain p v V' where
    gp: "get_pixel_points c a b = Inr p" and pv: "points_in_mask_of m p = Inr v"
    and rest: "voting_loop c jobs b = Inr V'" and V: "V = v # V'"
    by (auto simp: j split: sum.splits)
  from "4.prems"(2) have hp: "holds s pa (Matrix a)" and hi: "holds s ia (Mask m)"
    and tl: "list_all2 (\<lambda>aj j. holds s (fst aj) (Matrix (fst j)) \<and> holds s (snd aj) (Mask (snd j))) ajobs jobs"
    by (simp_all add: aj j)
  from vote_st_result [OF hp "4.prems"(1) hi gp pv] obtain r1 s1 where
    v1: "vote_st c pa ia points s = (Inr r1, s1)" and r1: "holds s1 r1 (Votes v)" by blast
  have k1: "keeps s s1" by (rule vote_st_keeps [OF v1])
  have tl1: "list_all2 (\<lambda>aj j. holds s1 (fst aj) (Matrix (fst j)) \<and> holds s1 (snd aj) (Mask (snd j))) ajobs jobs"
    using tl by (rule list_all2_mono) (auto intro: holds_keeps [OF k1])
  from "4.IH" [OF holds_keeps [OF k1 "4.prems"(1)] tl1 rest] obtain rs s2 where
    l: "voting_loop_st c ajobs points s1 = (Inr rs, s2)"
    and rs: "list_all2 (\<lambda>r v. holds s2 r (Votes v)) rs V'" by blast
  have "holds s2 r1 (Votes v)"
    using voting_loop_st_keeps [OF l] r1 by (rule holds_keeps)
  with rs show ?case
    by (simp add: aj v1 l V)
qed

lemma read_votes_holds:
  "list_all2 (\<lambda>r v. holds s r (Votes v)) rs V \<Longrightarrow> read_votes s rs = Inr V"
  by (induction rs V rule: list_induct2') (simp_all add: holds_def)

lemma voter_st_result:
  assumes "holds s points (Matrix b)"
    and "list_all2 (\<lambda>pa a. holds s pa (Matrix a)) appms ppms"
    and "list_all2 (\<lambda>ia m. holds s ia (Mask m)) amasks images_masks"
    and "get_voxel_points_projection_is_in_images_mask c images_masks ppms b = Inr V"
  shows "\<exists>r s'. voter_st c amasks appms points s = (Inr r, s') \<and> holds s' r (VoteRows V)"
proof -
  from assms(4) obtain V0 where loop: "voting_loop c (zip ppms images_masks) b = Inr V0"
    and st: "np_vstack V0 = Inr V"
    by (auto simp: get_voxel_points_projection_is_in_images_mask_def split: sum.splits)
  have len: "length appms = length ppms" "length amasks = length images_masks"
    using assms(2,3) by (simp_all add: list_all2_lengthD)
  have jobs: "list_all2 (\<lambda>aj j. holds s (fst aj) (Matrix (fst j)) \<and> holds s (snd aj) (Mask (snd j)))
      (zip appms amasks) (zip ppms images_masks)"
    using assms(2,3) len by (auto simp: list_all2_conv_all_nth)
  from voting_loop_st_result [OF assms(1) jobs loop] obtain rs s1 where
    l: "voting_loop_st c (zip appms amasks) points s = (Inr rs, s1)"
    and rs: "list_all2 (\<lambda>r v. holds s1 r (Votes v)) rs V0" by blast
  show ?thesis
    unfolding voter_st_def l
    by (simp add: read_votes_holds [OF rs] st alloc_def holds_def)
qed

text \<open>
  Claim C9.  Projection and voting never modify the voxel grid or the masks they are given:
  for any store in which the grid and the masks exist, after \<open>get_pixel_points\<close>, and after
  any number \<open>n\<close> of calls of the voter, the grid and every mask have the contents they had
  before.
\<close>

theorem projection_and_voting_leave_inputs_unchanged:
  assumes "voxel_points < next_free s" "list_all (\<lambda>img. img < next_free s) images_masks"
  shows "cells (snd (get_pixel_points_st c ppm voxel_points s)) voxel_points = cells s voxel_points \<and>
         list_all (\<lambda>img. cells (snd (get_pixel_points_st c ppm voxel_points s)) img = cells s img)
           images_masks \<and>
         cells (voter_calls n c images_masks ppms voxel_points s) voxel_points
           = cells s voxel_points \<and>
         list_all (\<lambda>img. cells (voter_calls n c images_masks ppms voxel_points s) img = cells s img)
           images_masks"
proof -
  have g: "keeps s (snd (get_pixel_points_st c ppm voxel_points s))"
    by (rule get_pixel_points_st_keeps [of c ppm voxel_points s
          "fst (get_pixel_points_st c ppm voxel_points s)"]) simp
  have v: "keeps s (voter_calls n c images_masks ppms voxel_points s)"
    by (rule voter_calls_keeps)
  from g v assms show ?thesis
    by (simp add: keeps_def list_all_iff)
qed

text \<open>
  The theorem on the example store: the voter returns the votes \<open>[1, 0, 0, 1, 0]\<close> in a new
  array at address 7, the product at address 3 has been overwritten by the division, and the
  grid and the mask are as before, also after two calls.
\<close>

theorem projection_and_voting_leave_inputs_unchanged_witness:
  "(0::nat) < next_free ex_store \<and> list_all (\<lambda>img. img < next_free ex_store) [2] \<and>
   fst (voter_st x86_cast [2] [1] 0 ex_store) = Inr 7 \<and>
   votes_at (snd (voter_st x86_cast [2] [1] 0 ex_store)) 7 = [[1, 0, 0, 1, 0]] \<and>
   matrix_at (snd (voter_st x86_cast [2] [1] 0 ex_store)) 3 = [] \<and>
   cells (voter_calls 2 x86_cast [2] [1] 0 ex_store) 0 = cells ex_store 0 \<and>
   cells (voter_calls 2 x86_cast [2] [1] 0 ex_store) 2 = cells ex_store 2 \<and>
   cells (snd (get_pixel_points_st x86_cast 1 0 ex_store)) 0 = cells ex_store 0"
proof -
  have a: "(0::nat) < next_free ex_store" by (simp add: ex_store_def)
  have b: "list_all (\<lambda>img. img < next_free ex_store) [2]" by (simp add: ex_store_def)
  have c: "fst (voter_st x86_cast [2] [1] 0 ex_store) = Inr 7" by code_simp
  have d: "votes_at (snd (voter_st x86_cast [2] [1] 0 ex_store)) 7 = [[1, 0, 0, 1, 0]]" by code_simp
  have e: "matrix_at (snd (voter_st x86_cast [2] [1] 0 ex_store)) 3 = []" by code_simp
  from projection_and_voting_leave_inputs_unchanged [OF a b, of x86_cast 1 2 "[1]"] a b c d e
  show ?thesis by simp
qed

section \<open>Claim C10: cropping and padding back\<close>

lemma collect_all_Inr:
  assumes "\<And>x. x \<in> set xs \<Longrightarrow> f x = Inr (g x)"
  shows "collect f xs = Inr (map g xs)"
  using assms by (induction xs) simp_all

lemma py_slice_length:
  assumes "0 \<le> a" "0 \<le> b" "a + b \<le> int n"
  shows "snd (py_slice n a (int n - b)) + nat a + nat b = n"
  using assms by (simp add: py_slice_def slice_bound_def)

text \<open>
  Claim C10, amended.  For equally sized \<open>H \<times> W \<times> 3\<close> images and crop offsets that are each
  nonnegative with \<open>top + bottom \<le> H\<close> and \<open>left + right \<le> W\<close>, cropping with
  \<open>get_cropped_images\<close> and padding with \<open>get_images_to_original_dimensions\<close> by the same
  offsets returns as many images, each of height \<open>H\<close> and width \<open>W\<close>.
\<close>

theorem crop_then_pad_restores_dimensions:
  assumes "list_all (\<lambda>img. rows img = H \<and> cols img = W) images"
    and "0 \<le> top'" "0 \<le> bottom'" "0 \<le> left'" "0 \<le> right'"
    and "top' + bottom' \<le> int H" "left' + right' \<le> int W"
  shows "\<exists>out. get_images_to_original_dimensions
                 (get_cropped_images images top' bottom' left' right') top' bottom' left' right'
               = Inr out \<and>
               length out = length images \<and>
               list_all (\<lambda>img. rows img = H \<and> cols img = W) out"
proof (cases "images = []")
  case True
  then show ?thesis
    by (simp add: get_cropped_images_def get_images_to_original_dimensions_def)
next
  case False
  let ?crop = "\<lambda>img. crop img (py_slice (rows img) top' (int H - bottom'))
                              (py_slice (cols img) left' (int W - right'))"
  let ?pad = "\<lambda>img. \<lparr>rows = rows img + nat top' + nat bottom',
                cols = cols img + nat left' + nat right',
                pixel = (\<lambda>y x ch.
                  if nat top' \<le> y \<and> y < nat top' + rows img \<and> nat left' \<le> x \<and> x < nat left' + cols img
                  then pixel img (y - nat top') (x - nat left') ch else 0)\<rparr>"
  from False assms(1) have first: "rows (images ! 0) = H" "cols (images ! 0) = W"
    by (cases images; simp)+
  have cropped: "get_cropped_images images top' bottom' left' right' = map ?crop images"
    using False by (simp add: get_cropped_images_def first)
  have padded: "get_images_to_original_dimensions (map ?crop images) top' bottom' left' right'
      = Inr (map ?pad (map ?crop images))"
    unfolding get_images_to_original_dimensions_def
    by (rule collect_all_Inr) (use assms(2-5) in \<open>simp add: copyMakeBorder_def\<close>)
  have dims: "rows (?pad (?crop img)) = H \<and> cols (?pad (?crop img)) = W"
    if "img \<in> set images" for img
  proof -
    from that assms(1) have "rows img = H" "cols img = W" by (simp_all add: list_all_iff)
    then show ?thesis
      using py_slice_length [OF assms(2,3,6)] py_slice_length [OF assms(4,5,7)]
      by (simp add: crop_def)
  qed
  have "list_all (\<lambda>img. rows img = H \<and> cols img = W) (map ?pad (map ?crop images))"
    using dims by (simp add: list_all_iff)
  with cropped padded show ?thesis by simp
qed

text \<open>The theorem on one \<open>2 \<times> 2\<close> image, cropping one row at the top and one column at the right.\<close>

theorem crop_then_pad_restores_dimensions_witness:
  "list_all (\<lambda>img. rows img = 2 \<and> cols img = 2) [ex_image] \<and>
   (0::int) \<le> 1 \<and> (0::int) \<le> 0 \<and> (1::int) + 0 \<le> int 2 \<and> (0::int) + 1 \<le> int 2 \<and>
   (\<exists>out. get_images_to_original_dimensions (get_cropped_images [ex_image] 1 0 0 1) 1 0 0 1
             = Inr out \<and>
           length out = length [ex_image] \<and>
           list_all (\<lambda>img. rows img = 2 \<and> cols img = 2) out)"
proof -
  have a: "list_all (\<lambda>img. rows img = 2 \<and> cols img = 2) [ex_image]"
    by (simp add: ex_image_def)
  from crop_then_pad_restores_dimensions [OF a, of 1 0 0 1] a
  show ?thesis by simp
qed

text \<open>
  Claim C10 as stated fails.  It bounds only the sums of the offsets, which \<open>top = -1\<close>,
  \<open>bottom = 1\<close> satisfy on a \<open>2 \<times> 2\<close> image: the slice \<^verbatim>\<open>img[-1:1]\<close> is empty, so the cropped
  image has no rows, and the padding is refused for its negative border.
\<close>

theorem crop_then_pad_negative_offset:
  "(0::int) \<le> - 1 + 1 \<and> (- 1::int) + 1 \<le> int (rows ex_image) \<and>
   (0::int) \<le> 0 + 0 \<and> (0::int) + 0 \<le> int (cols ex_image) \<and>
   map rows (get_cropped_images [ex_image] (- 1) 1 0 0) = [0] \<and>
   get_images_to_original_dimensions (get_cropped_images [ex_image] (- 1) 1 0 0) (- 1) 1 0 0
     = Inl CvError \<and>
   \<not> (\<exists>out. get_images_to_original_dimensions
               (get_cropped_images [ex_image] (- 1) 1 0 0) (- 1) 1 0 0 = Inr out \<and>
             list_all (\<lambda>img. rows img = rows ex_image \<and> cols img = cols ex_image) out)"
  by (simp add: ex_image_def get_cropped_images_def get_images_to_original_dimensions_def
      copyMakeBorder_def crop_def py_slice_def slice_bound_def)

end
